theory Spec2Isabelle
  imports Main
begin

section \<open>Data model\<close>

text \<open>
  The documents of the two collections, as the handlers of \<^verbatim>\<open>routes/admin.js\<close>,
  \<^verbatim>\<open>routes/auth.js\<close> and the blog router read and write them. An ObjectId is a
  \<open>nat\<close>: the handlers only compare identifiers (\<^verbatim>\<open>toString()\<close> on both sides, or a
  query by \<^verbatim>\<open>_id\<close>). Path parameters are taken as well-formed ObjectIds. Timestamps are
  left out: no handler below reads them.
\<close>

type_synonym oid = nat

text \<open>
  Modelled from the spec: the User schema (\<^verbatim>\<open>models/User\<close>) is not among the sources.
  The fields are those of the spec's data model that the handlers touch; the stored
  \<open>password\<close> is the hashed credential; \<open>role\<close> is the string the handlers compare
  with \<^verbatim>\<open>"admin"\<close> and \<^verbatim>\<open>"user"\<close>.
\<close>

record user =
  user_id :: oid
  name :: string
  email :: string
  password :: string
  role :: string

text \<open>
  A comment's content is the one string whose characters a handler looks at (the schema
  trims it), so it is kept as JavaScript has it: the list of its UTF-16 code units, each
  unit its number (below 65536). \<open>code_units\<close> gives the units of an ASCII literal. The
  other strings are only compared and tested for emptiness.
\<close>

type_synonym code_unit = nat

definition code_units :: "string \<Rightarrow> code_unit list" where
  "code_units x = map of_char x"

text \<open>\<^verbatim>\<open>commentSchema\<close> and \<^verbatim>\<open>blogSchema\<close> of the Blog model.\<close>

record comment =
  comment_id :: oid
  user :: oid
  content :: "code_unit list"
  userName :: string

record blog =
  blog_id :: oid
  title :: string
  blog_image :: string
  description :: string
  author :: oid
  authorName :: string
  likes :: "oid list"
  comments :: "comment list"

text \<open>The virtual \<^verbatim>\<open>likesCount\<close>: \<^verbatim>\<open>this.likes.length\<close>.\<close>

definition likesCount :: "blog \<Rightarrow> nat" where
  "likesCount b = length (likes b)"

definition commentsCount :: "blog \<Rightarrow> nat" where
  "commentsCount b = length (comments b)"

section \<open>The document store\<close>

text \<open>
  A collection is the list of its documents in natural order. The \<open>journal\<close> lists the
  write operations the store has applied, oldest first: it is what makes "no mutation"
  and "this write before that one" statements about a run of a handler.
\<close>

datatype store_op =
    BlogDeleteMany oid
  | BlogSave blog
  | UserDeleteOne oid
  | UserSave user

record store =
  users :: "user list"
  blogs :: "blog list"
  journal :: "store_op list"

datatype store_error = ValidationFailed | DuplicateKey

text \<open>\<^verbatim>\<open>User.findById(id)\<close>, \<^verbatim>\<open>User.findOne({ email })\<close>, \<^verbatim>\<open>Blog.findById(id)\<close>:
  the first matching document, or null.\<close>

definition User_findById :: "oid \<Rightarrow> store \<Rightarrow> user option" where
  "User_findById i s = find (\<lambda>u. user_id u = i) (users s)"

definition User_findOne_email :: "string \<Rightarrow> store \<Rightarrow> user option" where
  "User_findOne_email e s = find (\<lambda>u. email u = e) (users s)"

definition Blog_findById :: "oid \<Rightarrow> store \<Rightarrow> blog option" where
  "Blog_findById i s = find (\<lambda>b. blog_id b = i) (blogs s)"

text \<open>\<^verbatim>\<open>Blog.deleteMany({ author: id })\<close>: every blog of that author goes, embedded
  comments and likes with it.\<close>

definition Blog_deleteMany :: "oid \<Rightarrow> store \<Rightarrow> store" where
  "Blog_deleteMany a s =
     s\<lparr>blogs := filter (\<lambda>b. author b \<noteq> a) (blogs s),
       journal := journal s @ [BlogDeleteMany a]\<rparr>"

text \<open>\<^verbatim>\<open>User.deleteOne({ _id: id })\<close>: the first matching document goes.\<close>

fun delete_first :: "('a \<Rightarrow> bool) \<Rightarrow> 'a list \<Rightarrow> 'a list" where
  "delete_first P [] = []"
| "delete_first P (x # xs) = (if P x then xs else x # delete_first P xs)"

definition User_deleteOne :: "oid \<Rightarrow> store \<Rightarrow> store" where
  "User_deleteOne i s =
     s\<lparr>users := delete_first (\<lambda>u. user_id u = i) (users s),
       journal := journal s @ [UserDeleteOne i]\<rparr>"

text \<open>
  \<^verbatim>\<open>blog.save()\<close> of a document that was loaded from the store. Mongoose validates the
  document against the schema first and throws on a violation; the \<^verbatim>\<open>required\<close>
  validator of a String path rejects the empty string. An accepted document replaces
  the stored one with the same \<^verbatim>\<open>_id\<close>.
\<close>

definition comment_valid :: "comment \<Rightarrow> bool" where
  "comment_valid c = (content c \<noteq> [] \<and> userName c \<noteq> [])"

definition blog_valid :: "blog \<Rightarrow> bool" where
  "blog_valid b =
     (title b \<noteq> [] \<and> blog_image b \<noteq> [] \<and> description b \<noteq> [] \<and> authorName b \<noteq> []
      \<and> list_all comment_valid (comments b))"

definition Blog_save :: "blog \<Rightarrow> store \<Rightarrow> store_error + store" where
  "Blog_save b s =
     (if blog_valid b
      then Inr (s\<lparr>blogs := map (\<lambda>x. if blog_id x = blog_id b then b else x) (blogs s),
                  journal := journal s @ [BlogSave b]\<rparr>)
      else Inl ValidationFailed)"

text \<open>
  Modelled from the spec: \<^verbatim>\<open>user.save()\<close> of the absent User model. The spec's data
  model makes \<open>email\<close> unique across users, and the store makes \<^verbatim>\<open>_id\<close> unique: a save
  that would give two documents one email is rejected. A document whose \<^verbatim>\<open>_id\<close> is
  stored replaces that document; any other is inserted at the end. Field validators
  of the absent schema are not modelled.
\<close>

definition User_save :: "user \<Rightarrow> store \<Rightarrow> store_error + store" where
  "User_save u s =
     (if list_ex (\<lambda>v. user_id v \<noteq> user_id u \<and> email v = email u) (users s)
      then Inl DuplicateKey
      else if list_ex (\<lambda>v. user_id v = user_id u) (users s)
      then Inr (s\<lparr>users := map (\<lambda>v. if user_id v = user_id u then u else v) (users s),
                  journal := journal s @ [UserSave u]\<rparr>)
      else Inr (s\<lparr>users := users s @ [u], journal := journal s @ [UserSave u]\<rparr>))"

text \<open>\<^verbatim>\<open>User.countDocuments({ role })\<close>, \<^verbatim>\<open>Blog.countDocuments()\<close>, and the
  \<^verbatim>\<open>$group\<close> aggregation with \<^verbatim>\<open>_id: null\<close>, which yields one group when there is at
  least one blog and no group at all when there is none.\<close>

definition User_countDocuments_role :: "string \<Rightarrow> store \<Rightarrow> nat" where
  "User_countDocuments_role r s = length (filter (\<lambda>u. role u = r) (users s))"

definition Blog_countDocuments :: "store \<Rightarrow> nat" where
  "Blog_countDocuments s = length (blogs s)"

definition Blog_aggregate_totalComments :: "store \<Rightarrow> nat list" where
  "Blog_aggregate_totalComments s =
     (if blogs s = [] then [] else [sum_list (map (\<lambda>b. length (comments b)) (blogs s))])"

section \<open>Responses\<close>

text \<open>
  A response is the HTTP status, the JSON body and the user id sealed into the
  \<^verbatim>\<open>token\<close> cookie, when the handler sets one. The JWT's signature and expiry are not
  modelled.
\<close>

datatype user_view = UserView oid string string string

datatype body =
    Message string
  | ServerError store_error
  | UserBody string user_view
  | LikesBody "oid list" nat
  | CommentsBody "(comment \<times> string option) list"
  | StatsBody nat nat nat

record response =
  status :: nat
  body :: body
  cookie :: "oid option"

definition json :: "nat \<Rightarrow> body \<Rightarrow> response" where
  "json st b = \<lparr>status = st, body = b, cookie = None\<rparr>"

definition view :: "user \<Rightarrow> user_view" where
  "view u = UserView (user_id u) (name u) (email u) (role u)"

section \<open>Admin routes\<close>

text \<open>
  The handlers are modelled behind their middleware (\<^verbatim>\<open>auth\<close>, \<^verbatim>\<open>adminAuth\<close>), which is
  not among the sources: \<open>req_user\<close> is the identity it resolved.
\<close>

text \<open>\<^verbatim>\<open>DELETE /admin/users/:id\<close>.\<close>

definition deleteUser :: "oid \<Rightarrow> store \<Rightarrow> response \<times> store" where
  "deleteUser i s =
     (case User_findById i s of
        None \<Rightarrow> (json 404 (Message ''User not found''), s)
      | Some u \<Rightarrow>
          if role u = ''admin''
          then (json 400 (Message ''Cannot delete admin user''), s)
          else
            (let s1 = Blog_deleteMany (user_id u) s;
                 s2 = User_deleteOne (user_id u) s1
             in (json 200 (Message ''User and their blogs deleted successfully''), s2)))"

text \<open>
  \<^verbatim>\<open>GET /admin/stats\<close>. \<^verbatim>\<open>totalComments[0]?.totalComments || 0\<close> reads the first group of
  the aggregation, if there is one, and replaces a missing or zero value by 0.
\<close>

definition or_zero :: "nat option \<Rightarrow> nat" where
  "or_zero v = (case v of None \<Rightarrow> 0 | Some t \<Rightarrow> if t = 0 then 0 else t)"

definition first_group :: "nat list \<Rightarrow> nat option" where
  "first_group g = (case g of [] \<Rightarrow> None | t # _ \<Rightarrow> Some t)"

definition stats :: "store \<Rightarrow> response \<times> store" where
  "stats s =
     (let totalUsers = User_countDocuments_role ''user'' s;
          totalBlogs = Blog_countDocuments s;
          totalComments = Blog_aggregate_totalComments s
      in (json 200 (StatsBody totalUsers totalBlogs (or_zero (first_group totalComments))), s))"

text \<open>
  \<^verbatim>\<open>PUT /admin/users/:id\<close>. A body field is absent (\<open>None\<close>) or a string;
  \<^verbatim>\<open>if (name) user.name = name\<close> assigns a present, non-empty string.
\<close>

fun assign_if :: "string option \<Rightarrow> string \<Rightarrow> string" where
  "assign_if None old = old"
| "assign_if (Some v) old = (if v = [] then old else v)"

fun assign_role :: "string option \<Rightarrow> string \<Rightarrow> string" where
  "assign_role None old = old"
| "assign_role (Some r) old = (if r \<noteq> [] \<and> r \<in> set [''user'', ''admin''] then r else old)"

definition editUser ::
  "oid \<Rightarrow> string option \<Rightarrow> string option \<Rightarrow> string option \<Rightarrow> store \<Rightarrow> response \<times> store" where
  "editUser i name' email' role' s =
     (case User_findById i s of
        None \<Rightarrow> (json 404 (Message ''User not found''), s)
      | Some u \<Rightarrow>
          let u' = u\<lparr>name := assign_if name' (name u),
                     email := assign_if email' (email u),
                     role := assign_role role' (role u)\<rparr>
          in (case User_save u' s of
                Inl e \<Rightarrow> (json 500 (ServerError e), s)
              | Inr s' \<Rightarrow> (json 200 (UserBody ''User updated successfully'' (view u')), s')))"

section \<open>Blog routes\<close>

text \<open>
  \<^verbatim>\<open>POST /blogs/:id/like\<close>. \<^verbatim>\<open>indexOf\<close> is the position of the first equal element
  or -1; \<^verbatim>\<open>splice(i, 1)\<close> removes the element at position \<open>i\<close> (it is \<open>splice_js\<close> here:
  the list library has a \<open>splice\<close> of its own).
\<close>

fun indexOf :: "oid list \<Rightarrow> oid \<Rightarrow> int" where
  "indexOf [] x = - 1"
| "indexOf (y # ys) x =
     (if y = x then 0 else (let k = indexOf ys x in if k = - 1 then - 1 else k + 1))"

definition splice_js :: "'a list \<Rightarrow> nat \<Rightarrow> nat \<Rightarrow> 'a list" where
  "splice_js xs start n = take start xs @ drop (start + n) xs"

definition toggleLike :: "user \<Rightarrow> oid \<Rightarrow> store \<Rightarrow> response \<times> store" where
  "toggleLike req_user i s =
     (case Blog_findById i s of
        None \<Rightarrow> (json 404 (Message ''Blog not found''), s)
      | Some b \<Rightarrow>
          let likeIndex = indexOf (likes b) (user_id req_user);
              b' = (if likeIndex > - 1
                    then b\<lparr>likes := splice_js (likes b) (nat likeIndex) 1\<rparr>
                    else b\<lparr>likes := likes b @ [user_id req_user]\<rparr>)
          in (case Blog_save b' s of
                Inl e \<Rightarrow> (json 500 (ServerError e), s)
              | Inr s' \<Rightarrow> (json 200 (LikesBody (likes b') (likesCount b')), s')))"

text \<open>
  \<^verbatim>\<open>POST /blogs/:id/comment\<close>. The guard \<^verbatim>\<open>!content\<close> rejects an absent and an empty
  content. The schema's \<^verbatim>\<open>trim: true\<close> is a setter: the pushed subdocument holds the
  trimmed content. The setter is \<^verbatim>\<open>String.prototype.trim\<close>, which strips the white space
  and the line terminators of ECMAScript from both ends: TAB, LF, VT, FF, CR, SPACE,
  NO-BREAK SPACE (U+00A0), U+1680, U+2000 to U+200A, U+2028, U+2029, U+202F, U+205F,
  U+3000 and U+FEFF, each a single code unit.
  \<open>new_id\<close> is the \<^verbatim>\<open>_id\<close> the new subdocument gets. The answer is the comment array with
  \<^verbatim>\<open>comments.user\<close> populated by the user's name, null for a user that is gone.
\<close>

definition is_space :: "code_unit \<Rightarrow> bool" where
  "is_space c =
     (c \<in> set [0x0009, 0x000A, 0x000B, 0x000C, 0x000D, 0x0020, 0x00A0, 0x1680,
               0x2000, 0x2001, 0x2002, 0x2003, 0x2004, 0x2005, 0x2006, 0x2007,
               0x2008, 0x2009, 0x200A, 0x2028, 0x2029, 0x202F, 0x205F, 0x3000, 0xFEFF])"

definition trim :: "code_unit list \<Rightarrow> code_unit list" where
  "trim x = rev (dropWhile is_space (rev (dropWhile is_space x)))"

definition populate_comments_user :: "store \<Rightarrow> comment list \<Rightarrow> (comment \<times> string option) list" where
  "populate_comments_user s cs = map (\<lambda>c. (c, map_option name (User_findById (user c) s))) cs"

definition addComment ::
  "user \<Rightarrow> oid \<Rightarrow> oid \<Rightarrow> code_unit list option \<Rightarrow> store \<Rightarrow> response \<times> store" where
  "addComment req_user i new_id content' s =
     (case content' of
        None \<Rightarrow> (json 400 (Message ''Comment content is required''), s)
      | Some c \<Rightarrow>
          if c = [] then (json 400 (Message ''Comment content is required''), s)
          else
            (case Blog_findById i s of
               None \<Rightarrow> (json 404 (Message ''Blog not found''), s)
             | Some b \<Rightarrow>
                 let b' = b\<lparr>comments := comments b @
                            [\<lparr>comment_id = new_id, user = user_id req_user,
                              content = trim c, userName = name req_user\<rparr>]\<rparr>
                 in (case Blog_save b' s of
                       Inl e \<Rightarrow> (json 500 (ServerError e), s)
                     | Inr s' \<Rightarrow>
                         (json 200 (CommentsBody (populate_comments_user s' (comments b'))), s'))))"

text \<open>
  \<^verbatim>\<open>DELETE /blogs/:blogId/comment/:commentId\<close>. \<^verbatim>\<open>comments.id(x)\<close> is the first
  subdocument with that \<^verbatim>\<open>_id\<close>; \<^verbatim>\<open>comments.pull(x)\<close> removes every subdocument with it.
\<close>

definition comments_id :: "comment list \<Rightarrow> oid \<Rightarrow> comment option" where
  "comments_id cs i = find (\<lambda>c. comment_id c = i) cs"

definition pull :: "comment list \<Rightarrow> oid \<Rightarrow> comment list" where
  "pull cs i = filter (\<lambda>c. comment_id c \<noteq> i) cs"

definition deleteComment :: "user \<Rightarrow> oid \<Rightarrow> oid \<Rightarrow> store \<Rightarrow> response \<times> store" where
  "deleteComment req_user blogId commentId s =
     (case Blog_findById blogId s of
        None \<Rightarrow> (json 404 (Message ''Blog not found''), s)
      | Some b \<Rightarrow>
          (case comments_id (comments b) commentId of
             None \<Rightarrow> (json 404 (Message ''Comment not found''), s)
           | Some c \<Rightarrow>
               if user c \<noteq> user_id req_user \<and> role req_user \<noteq> ''admin''
               then (json 403 (Message ''Not authorized''), s)
               else
                 (case Blog_save (b\<lparr>comments := pull (comments b) (comment_id c)\<rparr>) s of
                    Inl e \<Rightarrow> (json 500 (ServerError e), s)
                  | Inr s' \<Rightarrow> (json 200 (Message ''Comment deleted successfully''), s'))))"

section \<open>Auth routes\<close>

text \<open>
  \<^verbatim>\<open>POST /auth/login\<close>. \<open>comparePassword\<close> is the method of the absent User model: it
  takes the candidate and the stored credential.
\<close>

definition login ::
  "(string \<Rightarrow> string \<Rightarrow> bool) \<Rightarrow> string \<Rightarrow> string \<Rightarrow> store \<Rightarrow> response \<times> store" where
  "login comparePassword em pw s =
     (case User_findOne_email em s of
        None \<Rightarrow> (json 400 (Message ''Invalid credentials''), s)
      | Some u \<Rightarrow>
          if \<not> comparePassword pw (password u)
          then (json 400 (Message ''Invalid credentials''), s)
          else (\<lparr>status = 200, body = UserBody ''Login successful'' (view u),
                 cookie = Some (user_id u)\<rparr>, s))"

text \<open>
  \<^verbatim>\<open>POST /auth/admin-login\<close>. \<open>env\<close> holds the two configured values of
  \<^verbatim>\<open>process.env\<close>; \<open>hashPassword\<close> is the hashing the absent User model applies to a new
  password; \<open>new_id\<close> is the \<^verbatim>\<open>_id\<close> that \<^verbatim>\<open>new User\<close> generates.
\<close>

record env =
  ADMIN_EMAIL :: string
  ADMIN_PASSWORD :: string

definition adminLogin ::
  "env \<Rightarrow> (string \<Rightarrow> string) \<Rightarrow> oid \<Rightarrow> string \<Rightarrow> string \<Rightarrow> store \<Rightarrow> response \<times> store" where
  "adminLogin e hashPassword new_id em pw s =
     (if em \<noteq> ADMIN_EMAIL e \<or> pw \<noteq> ADMIN_PASSWORD e
      then (json 400 (Message ''Invalid admin credentials''), s)
      else
        (case User_findOne_email (ADMIN_EMAIL e) s of
           None \<Rightarrow>
             (let admin = \<lparr>user_id = new_id, name = ''Admin'', email = ADMIN_EMAIL e,
                           password = hashPassword (ADMIN_PASSWORD e), role = ''admin''\<rparr>
              in case User_save admin s of
                   Inl err \<Rightarrow> (json 500 (ServerError err), s)
                 | Inr s' \<Rightarrow>
                     (\<lparr>status = 200, body = UserBody ''Admin login successful'' (view admin),
                       cookie = Some (user_id admin)\<rparr>, s'))
         | Some admin \<Rightarrow>
             if role admin \<noteq> ''admin''
             then
               (let admin' = admin\<lparr>role := ''admin''\<rparr>
                in case User_save admin' s of
                     Inl err \<Rightarrow> (json 500 (ServerError err), s)
                   | Inr s' \<Rightarrow>
                       (\<lparr>status = 200, body = UserBody ''Admin login successful'' (view admin'),
                         cookie = Some (user_id admin')\<rparr>, s'))
             else
               (\<lparr>status = 200, body = UserBody ''Admin login successful'' (view admin),
                 cookie = Some (user_id admin)\<rparr>, s)))"

text \<open>The answer of a successful admin login for the account \<open>a\<close>.\<close>

definition admin_ok :: "user \<Rightarrow> response" where
  "admin_ok a = \<lparr>status = 200, body = UserBody ''Admin login successful'' (view a),
                 cookie = Some (user_id a)\<rparr>"

text \<open>The likes array after one toggle by \<open>x\<close>, in closed form: the lemma
  \<open>toggle_like_valid\<close> below shows that this is what the handler stores.\<close>

definition toggled :: "oid list \<Rightarrow> oid \<Rightarrow> oid list" where
  "toggled l x = (if x \<in> set l then remove1 x l else l @ [x])"

text \<open>The sum over all blogs of their comment-array lengths.\<close>

definition total_comments :: "store \<Rightarrow> nat" where
  "total_comments s = sum_list (map commentsCount (blogs s))"

section \<open>Example stores\<close>

definition alice :: user where
  "alice = \<lparr>user_id = 1, name = ''Alice'', email = ''a@x.com'', password = ''h1'', role = ''user''\<rparr>"

definition bob :: user where
  "bob = \<lparr>user_id = 2, name = ''Bob'', email = ''b@x.com'', password = ''h2'', role = ''user''\<rparr>"

definition root :: user where
  "root = \<lparr>user_id = 3, name = ''Admin'', email = ''root@x.com'', password = ''h3'', role = ''admin''\<rparr>"

definition bob_on_alice :: comment where
  "bob_on_alice =
     \<lparr>comment_id = 20, user = 2, content = code_units ''nice'', userName = ''Bob''\<rparr>"

definition alice_on_bob :: comment where
  "alice_on_bob =
     \<lparr>comment_id = 21, user = 1, content = code_units ''thanks'', userName = ''Alice''\<rparr>"

definition alice_blog :: blog where
  "alice_blog = \<lparr>blog_id = 10, title = ''Hills'', blog_image = ''u1'', description = ''d1'',
     author = 1, authorName = ''Alice'', likes = [2], comments = [bob_on_alice]\<rparr>"

definition bob_blog :: blog where
  "bob_blog = \<lparr>blog_id = 11, title = ''Rivers'', blog_image = ''u2'', description = ''d2'',
     author = 2, authorName = ''Bob'', likes = [1, 2], comments = [alice_on_bob, bob_on_alice]\<rparr>"

definition demo :: store where
  "demo = \<lparr>users = [alice, bob, root], blogs = [alice_blog, bob_blog], journal = []\<rparr>"

definition empty_store :: store where
  "empty_store = \<lparr>users = [], blogs = [], journal = []\<rparr>"



text \<open>A credential check for the examples: the stored credential of password \<open>p\<close> is \<open>h\<close>
  followed by \<open>p\<close>.\<close>

definition demo_compare :: "string \<Rightarrow> string \<Rightarrow> bool" where
  "demo_compare pw stored = (stored = CHR ''h'' # pw)"

text \<open>A hashing for the examples, matching \<open>demo_compare\<close>, and three configurations.\<close>

definition demo_hash :: "string \<Rightarrow> string" where
  "demo_hash pw = CHR ''h'' # pw"

definition boss_env :: env where
  "boss_env = \<lparr>ADMIN_EMAIL = ''boss@x.com'', ADMIN_PASSWORD = ''secret''\<rparr>"

definition root_env :: env where
  "root_env = \<lparr>ADMIN_EMAIL = ''root@x.com'', ADMIN_PASSWORD = ''secret''\<rparr>"

definition alice_env :: env where
  "alice_env = \<lparr>ADMIN_EMAIL = ''a@x.com'', ADMIN_PASSWORD = ''secret''\<rparr>"

section \<open>Facts about the store\<close>

lemma find_Some_pred: "find P xs = Some x \<Longrightarrow> P x"
  by (induction xs) (auto split: if_splits)

lemma find_Some_mem: "find P xs = Some x \<Longrightarrow> x \<in> set xs"
  by (induction xs) (auto split: if_splits)

lemma User_findById_id: "User_findById i s = Some u \<Longrightarrow> user_id u = i"
  unfolding User_findById_def by (rule find_Some_pred)

text \<open>
  The store's invariants are kept by the writes: a saved blog is schema-valid, and user
  ids and emails stay unique under an accepted user save.
\<close>

lemma Blog_save_keeps_valid:
  assumes "Blog_save b s = Inr s'" and "list_all blog_valid (blogs s)"
  shows "list_all blog_valid (blogs s')"
  using assms by (auto simp: Blog_save_def list_all_iff split: if_splits)

lemma User_save_keeps_unique:
  assumes "User_save u s = Inr s'"
    and "distinct (map user_id (users s))" and "distinct (map email (users s))"
  shows "distinct (map user_id (users s')) \<and> distinct (map email (users s'))"
proof (cases "list_ex (\<lambda>v. user_id v = user_id u) (users s)")
  case False
  from assms(1) False have free: "\<not> list_ex (\<lambda>v. user_id v \<noteq> user_id u \<and> email v = email u) (users s)"
    and s': "users s' = users s @ [u]"
    by (auto simp: User_save_def split: if_splits)
  from False have "user_id u \<notin> user_id ` set (users s)"
    by (auto simp: list_ex_iff)
  moreover from False free have "email u \<notin> email ` set (users s)"
    by (auto simp: list_ex_iff)
  ultimately show ?thesis
    using assms(2,3) by (simp add: s')
next
  case True
  let ?f = "\<lambda>v. if user_id v = user_id u then u else v"
  from assms(1) True have free: "\<not> list_ex (\<lambda>v. user_id v \<noteq> user_id u \<and> email v = email u) (users s)"
    and s': "users s' = map ?f (users s)"
    by (auto simp: User_save_def split: if_splits)
  have ids: "map user_id (map ?f (users s)) = map user_id (users s)"
    by (induction "users s") auto
  have d: "distinct (users s)" and iu: "inj_on user_id (set (users s))"
    and ie: "inj_on email (set (users s))"
    using assms(2,3) by (simp_all add: distinct_map)
  have "inj_on (\<lambda>v. email (?f v)) (set (users s))"
  proof (rule inj_onI)
    fix x y
    assume x: "x \<in> set (users s)" and y: "y \<in> set (users s)" and e: "email (?f x) = email (?f y)"
    show "x = y"
    proof (cases "user_id x = user_id u")
      case xu: True
      show ?thesis
      proof (cases "user_id y = user_id u")
        case True
        with xu show ?thesis using inj_onD [OF iu _ x y] by simp
      next
        case False
        with xu e free y show ?thesis by (auto simp: list_ex_iff)
      qed
    next
      case xu: False
      show ?thesis
      proof (cases "user_id y = user_id u")
        case True
        with xu e free x show ?thesis by (auto simp: list_ex_iff)
      next
        case False
        with xu e show ?thesis using inj_onD [OF ie _ x y] by simp
      qed
    qed
  qed
  with d have "distinct (map (\<lambda>v. email (?f v)) (users s))"
    by (simp add: distinct_map)
  then have "distinct (map email (map ?f (users s)))"
    by (simp add: comp_def)
  with ids assms(2) show ?thesis
    by (simp only: s' simp_thms)
qed

lemmas demo_defs = demo_def alice_def bob_def root_def alice_blog_def bob_blog_def
  bob_on_alice_def alice_on_bob_def

section \<open>Deleting an admin account is refused\<close>

text \<open>
  C1, as stated: deleting a user whose role is admin fails with Forbidden, which the
  spec's interface gives status 403. On the demo store the target 3 is an admin and the
  status of the answer is 400, not 403.
\<close>

theorem delete_admin_not_403:
  "User_findById 3 demo = Some root \<and> role root = ''admin''
   \<and> status (fst (deleteUser 3 demo)) = 400
   \<and> status (fst (deleteUser 3 demo)) \<noteq> 403"
  by (simp add: deleteUser_def User_findById_def demo_defs json_def)

text \<open>
  C1, amended: deleting an existing user whose role is admin is refused with status 400
  and the message "Cannot delete admin user", and the store is left as it was: no write
  is issued, so no blog is deleted and the target's record stays.
\<close>

theorem delete_admin_refused:
  assumes "User_findById i s = Some u" and "role u = ''admin''"
  shows "deleteUser i s = (json 400 (Message ''Cannot delete admin user''), s)"
  using assms by (simp add: deleteUser_def)

theorem delete_admin_refused_witness:
  "User_findById 3 demo = Some root \<and> role root = ''admin''
   \<and> deleteUser 3 demo = (json 400 (Message ''Cannot delete admin user''), demo)
   \<and> journal (snd (deleteUser 3 demo)) = []
   \<and> blogs (snd (deleteUser 3 demo)) = [alice_blog, bob_blog]
   \<and> User_findById 3 (snd (deleteUser 3 demo)) = Some root"
proof -
  have f: "User_findById 3 demo = Some root"
    by (simp add: User_findById_def demo_defs)
  have r: "role root = ''admin''"
    by (simp add: root_def)
  have d: "deleteUser 3 demo = (json 400 (Message ''Cannot delete admin user''), demo)"
    using delete_admin_refused [OF f r] .
  show ?thesis
    using f r d by (simp add: demo_def)
qed

section \<open>Deleting a comment\<close>

text \<open>
  C2: when the blog and the comment exist and the acting user is neither the comment's
  author nor an admin, deleting the comment is refused with status 403 (Forbidden) and
  the store, hence the blog's comment array, is unchanged. Nothing is assumed about the
  blog's author: the refusal also meets the author of the blog.
\<close>

theorem comment_delete_needs_author_or_admin:
  assumes "Blog_findById blogId s = Some b"
    and "comments_id (comments b) commentId = Some c"
    and "user c \<noteq> user_id req_user"
    and "role req_user \<noteq> ''admin''"
  shows "deleteComment req_user blogId commentId s = (json 403 (Message ''Not authorized''), s)"
  using assms by (simp add: deleteComment_def)

theorem comment_delete_needs_author_or_admin_witness:
  "Blog_findById 10 demo = Some alice_blog
   \<and> author alice_blog = user_id alice
   \<and> comments_id (comments alice_blog) 20 = Some bob_on_alice
   \<and> user bob_on_alice \<noteq> user_id alice
   \<and> role alice \<noteq> ''admin''
   \<and> deleteComment alice 10 20 demo = (json 403 (Message ''Not authorized''), demo)
   \<and> map_option comments (Blog_findById 10 (snd (deleteComment alice 10 20 demo))) = Some [bob_on_alice]"
proof -
  have f: "Blog_findById 10 demo = Some alice_blog"
    by (simp add: Blog_findById_def demo_defs)
  have c: "comments_id (comments alice_blog) 20 = Some bob_on_alice"
    by (simp add: comments_id_def demo_defs)
  have u: "user bob_on_alice \<noteq> user_id alice"
    by (simp add: demo_defs)
  have r: "role alice \<noteq> ''admin''"
    by (simp add: demo_defs)
  have d: "deleteComment alice 10 20 demo = (json 403 (Message ''Not authorized''), demo)"
    using comment_delete_needs_author_or_admin [OF f c u r] .
  have a: "author alice_blog = user_id alice"
    by (simp add: demo_defs)
  show ?thesis
    using f c u r a by (simp add: d) (simp add: alice_blog_def)
qed

section \<open>Deleting a user\<close>

lemma find_delete_first_distinct:
  "distinct (map f xs) \<Longrightarrow> find (\<lambda>u. f u = i) (delete_first (\<lambda>u. f u = i) xs) = None"
  by (induction xs) (auto simp: find_None_iff image_iff)

lemma sum_list_filter_split:
  "sum_list (map g (filter P xs)) + sum_list (map g (filter (\<lambda>x. \<not> P x) xs)) = (sum_list (map g xs) :: nat)"
  by (induction xs) auto

text \<open>
  C3: deleting an existing non-admin user succeeds; afterwards no blog has the target as
  author, the target's record is absent, and the total comment count has gone down by
  exactly the comments of the target's blogs. The store applied two writes, the deletion
  of the target's blogs first and the deletion of the user record second. User ids are
  unique in the collection.
\<close>

theorem delete_user_cascade:
  assumes "distinct (map user_id (users s))"
    and "User_findById i s = Some u"
    and "role u \<noteq> ''admin''"
  shows "status (fst (deleteUser i s)) = 200
    \<and> filter (\<lambda>b. author b = i) (blogs (snd (deleteUser i s))) = []
    \<and> User_findById i (snd (deleteUser i s)) = None
    \<and> total_comments (snd (deleteUser i s))
        + sum_list (map commentsCount (filter (\<lambda>b. author b = i) (blogs s)))
      = total_comments s
    \<and> journal (snd (deleteUser i s)) = journal s @ [BlogDeleteMany i, UserDeleteOne i]"
proof -
  have id: "user_id u = i"
    using assms(2) by (rule User_findById_id)
  have run: "deleteUser i s =
      (json 200 (Message ''User and their blogs deleted successfully''),
       User_deleteOne i (Blog_deleteMany i s))"
    using assms(2,3) id by (simp add: deleteUser_def Let_def)
  have gone: "User_findById i (User_deleteOne i (Blog_deleteMany i s)) = None"
    using assms(1)
    by (simp add: User_findById_def User_deleteOne_def Blog_deleteMany_def find_delete_first_distinct)
  have none: "filter (\<lambda>b. author b = i) (blogs (User_deleteOne i (Blog_deleteMany i s))) = []"
    by (simp add: User_deleteOne_def Blog_deleteMany_def filter_empty_conv)
  have cnt: "total_comments (User_deleteOne i (Blog_deleteMany i s))
        + sum_list (map commentsCount (filter (\<lambda>b. author b = i) (blogs s)))
      = total_comments s"
    using sum_list_filter_split [of commentsCount "\<lambda>b. author b = i" "blogs s"]
    by (simp add: total_comments_def User_deleteOne_def Blog_deleteMany_def)
  have jr: "journal (User_deleteOne i (Blog_deleteMany i s)) = journal s @ [BlogDeleteMany i, UserDeleteOne i]"
    by (simp add: User_deleteOne_def Blog_deleteMany_def)
  show ?thesis
    unfolding run using gone none cnt jr by (simp add: json_def)
qed

theorem delete_user_cascade_witness:
  "distinct (map user_id (users demo))
   \<and> User_findById 2 demo = Some bob \<and> role bob \<noteq> ''admin''
   \<and> map commentsCount (filter (\<lambda>b. author b = 2) (blogs demo)) = [2]
   \<and> total_comments demo = 3
   \<and> status (fst (deleteUser 2 demo)) = 200
   \<and> filter (\<lambda>b. author b = 2) (blogs (snd (deleteUser 2 demo))) = []
   \<and> User_findById 2 (snd (deleteUser 2 demo)) = None
   \<and> total_comments (snd (deleteUser 2 demo)) = 1
   \<and> journal (snd (deleteUser 2 demo)) = [BlogDeleteMany 2, UserDeleteOne 2]"
proof -
  have d: "distinct (map user_id (users demo))"
    by (simp add: demo_defs)
  have f: "User_findById 2 demo = Some bob"
    by (simp add: User_findById_def demo_defs)
  have r: "role bob \<noteq> ''admin''"
    by (simp add: bob_def)
  have c: "map commentsCount (filter (\<lambda>b. author b = 2) (blogs demo)) = [2]"
    by (simp add: demo_defs commentsCount_def)
  have t: "total_comments demo = 3"
    by (simp add: total_comments_def demo_defs commentsCount_def)
  have j: "journal demo = []"
    by (simp add: demo_def)
  show ?thesis
    using delete_user_cascade [OF d f r] d f r c t j by simp
qed

text \<open>
  C10: after a successful deletion of a non-admin user the blogs that remain are exactly
  the blogs of other authors, each as it was: comments the target wrote there and the
  target's likes there stay, although the target's record is gone.
\<close>

theorem delete_user_frame:
  assumes "distinct (map user_id (users s))"
    and "User_findById i s = Some u"
    and "role u \<noteq> ''admin''"
  shows "status (fst (deleteUser i s)) = 200
    \<and> User_findById i (snd (deleteUser i s)) = None
    \<and> blogs (snd (deleteUser i s)) = filter (\<lambda>b. author b \<noteq> i) (blogs s)
    \<and> (\<forall>b. b \<in> set (blogs s) \<and> author b \<noteq> i \<longrightarrow> b \<in> set (blogs (snd (deleteUser i s))))"
proof -
  have id: "user_id u = i"
    using assms(2) by (rule User_findById_id)
  have run: "deleteUser i s =
      (json 200 (Message ''User and their blogs deleted successfully''),
       User_deleteOne i (Blog_deleteMany i s))"
    using assms(2,3) id by (simp add: deleteUser_def Let_def)
  have gone: "User_findById i (User_deleteOne i (Blog_deleteMany i s)) = None"
    using assms(1)
    by (simp add: User_findById_def User_deleteOne_def Blog_deleteMany_def find_delete_first_distinct)
  have rest: "blogs (User_deleteOne i (Blog_deleteMany i s)) = filter (\<lambda>b. author b \<noteq> i) (blogs s)"
    by (simp add: User_deleteOne_def Blog_deleteMany_def)
  show ?thesis
    unfolding run using gone rest by (simp add: json_def)
qed

theorem delete_user_frame_witness:
  "distinct (map user_id (users demo))
   \<and> User_findById 1 demo = Some alice \<and> role alice \<noteq> ''admin''
   \<and> status (fst (deleteUser 1 demo)) = 200
   \<and> User_findById 1 (snd (deleteUser 1 demo)) = None
   \<and> blogs (snd (deleteUser 1 demo)) = [bob_blog]
   \<and> author bob_blog \<noteq> 1
   \<and> alice_on_bob \<in> set (comments bob_blog) \<and> user alice_on_bob = 1
   \<and> 1 \<in> set (likes bob_blog)"
proof -
  have d: "distinct (map user_id (users demo))"
    by (simp add: demo_defs)
  have f: "User_findById 1 demo = Some alice"
    by (simp add: User_findById_def demo_defs)
  have r: "role alice \<noteq> ''admin''"
    by (simp add: alice_def)
  have b: "filter (\<lambda>b. author b \<noteq> 1) (blogs demo) = [bob_blog]"
    by (simp add: demo_def alice_blog_def bob_blog_def)
  have o: "author bob_blog \<noteq> 1 \<and> alice_on_bob \<in> set (comments bob_blog)
      \<and> user alice_on_bob = 1 \<and> 1 \<in> set (likes bob_blog)"
    by (simp add: bob_blog_def alice_on_bob_def)
  show ?thesis
    using delete_user_frame [OF d f r] d f r b o by simp
qed

section \<open>Dashboard statistics\<close>

text \<open>
  C7: the statistics are the number of users whose role is "user", the number of blogs
  and the sum of the comment-array lengths of all blogs; with no blog at all the total
  comment count is the number 0.
\<close>

theorem stats_counts:
  "stats s =
     (json 200 (StatsBody (length (filter (\<lambda>u. role u = ''user'') (users s)))
                          (length (blogs s))
                          (sum_list (map commentsCount (blogs s)))), s)
   \<and> (blogs s = [] \<longrightarrow>
        stats s = (json 200 (StatsBody (length (filter (\<lambda>u. role u = ''user'') (users s))) 0 0), s))"
proof -
  have z: "or_zero (first_group (Blog_aggregate_totalComments s)) = sum_list (map commentsCount (blogs s))"
  proof (cases "blogs s = []")
    case True
    then show ?thesis
      by (simp add: Blog_aggregate_totalComments_def first_group_def or_zero_def)
  next
    case False
    have "or_zero (Some t) = t" for t
      by (simp add: or_zero_def)
    moreover have "commentsCount = (\<lambda>b. length (comments b))"
      by (simp add: fun_eq_iff commentsCount_def)
    ultimately show ?thesis
      using False by (simp add: Blog_aggregate_totalComments_def first_group_def)
  qed
  have "stats s =
     (json 200 (StatsBody (length (filter (\<lambda>u. role u = ''user'') (users s)))
                          (length (blogs s))
                          (sum_list (map commentsCount (blogs s)))), s)"
    by (simp add: stats_def User_countDocuments_role_def Blog_countDocuments_def z)
  then show ?thesis
    by simp
qed

theorem stats_counts_witness:
  "blogs empty_store = []
   \<and> stats empty_store = (json 200 (StatsBody 0 0 0), empty_store)
   \<and> stats demo = (json 200 (StatsBody 2 2 3), demo)"
proof -
  have e: "blogs empty_store = []"
    by (simp add: empty_store_def)
  have u: "users empty_store = []"
    by (simp add: empty_store_def)
  have z: "stats empty_store = (json 200 (StatsBody 0 0 0), empty_store)"
    using stats_counts [of empty_store] e u by simp
  have c: "length (filter (\<lambda>u. role u = ''user'') (users demo)) = 2
      \<and> length (blogs demo) = 2 \<and> sum_list (map commentsCount (blogs demo)) = 3"
    by (simp add: demo_defs commentsCount_def)
  have n: "stats demo = (json 200 (StatsBody 2 2 3), demo)"
    using stats_counts [of demo] c by simp
  show ?thesis
    using e z n by simp
qed

section \<open>Login\<close>

text \<open>
  C9: a login for an unknown email and a login with a wrong password for a known email
  get the same answer, status 400 with "Invalid credentials", and any two failed logins
  get equal responses; a login with the right password succeeds with the user's id,
  name, email and role.
\<close>

theorem login_uniform_failure:
  "(User_findOne_email em s = None \<longrightarrow>
      login cmp em pw s = (json 400 (Message ''Invalid credentials''), s))
   \<and> (User_findOne_email em s = Some u \<and> \<not> cmp pw (password u) \<longrightarrow>
      login cmp em pw s = (json 400 (Message ''Invalid credentials''), s))
   \<and> (User_findOne_email em s = Some u \<and> cmp pw (password u) \<longrightarrow>
      login cmp em pw s =
        (\<lparr>status = 200,
          body = UserBody ''Login successful'' (UserView (user_id u) (name u) (email u) (role u)),
          cookie = Some (user_id u)\<rparr>, s))
   \<and> (status (fst (login cmp em pw s)) \<noteq> 200 \<and> status (fst (login cmp em2 pw2 s2)) \<noteq> 200 \<longrightarrow>
      fst (login cmp em pw s) = fst (login cmp em2 pw2 s2))"
  by (simp add: login_def view_def json_def split: option.splits)

theorem login_uniform_failure_witness:
  "User_findOne_email ''zed@x.com'' demo = None
   \<and> User_findOne_email ''a@x.com'' demo = Some alice
   \<and> \<not> demo_compare ''wrong'' (password alice)
   \<and> demo_compare ''1'' (password alice)
   \<and> login demo_compare ''zed@x.com'' ''1'' demo = (json 400 (Message ''Invalid credentials''), demo)
   \<and> login demo_compare ''a@x.com'' ''wrong'' demo = (json 400 (Message ''Invalid credentials''), demo)
   \<and> fst (login demo_compare ''zed@x.com'' ''1'' demo) = fst (login demo_compare ''a@x.com'' ''wrong'' demo)
   \<and> login demo_compare ''a@x.com'' ''1'' demo =
        (\<lparr>status = 200, body = UserBody ''Login successful'' (UserView 1 ''Alice'' ''a@x.com'' ''user''),
          cookie = Some 1\<rparr>, demo)"
proof -
  have n: "User_findOne_email ''zed@x.com'' demo = None"
    by (simp add: User_findOne_email_def demo_defs)
  have f: "User_findOne_email ''a@x.com'' demo = Some alice"
    by (simp add: User_findOne_email_def demo_defs)
  have w: "\<not> demo_compare ''wrong'' (password alice)"
    by (simp add: demo_compare_def alice_def)
  have c: "demo_compare ''1'' (password alice)"
    by (simp add: demo_compare_def alice_def)
  have a: "user_id alice = 1 \<and> name alice = ''Alice'' \<and> email alice = ''a@x.com'' \<and> role alice = ''user''"
    by (simp add: alice_def)
  have 1: "login demo_compare ''zed@x.com'' ''1'' demo = (json 400 (Message ''Invalid credentials''), demo)"
    using login_uniform_failure [where em = "''zed@x.com''" and s = demo and cmp = demo_compare and pw = "''1''"] n by simp
  have 2: "login demo_compare ''a@x.com'' ''wrong'' demo = (json 400 (Message ''Invalid credentials''), demo)"
    using login_uniform_failure [where em = "''a@x.com''" and s = demo and cmp = demo_compare and pw = "''wrong''" and u = alice] f w by simp
  have 3: "login demo_compare ''a@x.com'' ''1'' demo =
        (\<lparr>status = 200, body = UserBody ''Login successful'' (UserView 1 ''Alice'' ''a@x.com'' ''user''),
          cookie = Some 1\<rparr>, demo)"
    using login_uniform_failure [where em = "''a@x.com''" and s = demo and cmp = demo_compare and pw = "''1''" and u = alice] f c a by simp
  show ?thesis
    using n f w c 1 2 3 by simp
qed

section \<open>Toggling a like\<close>

lemma indexOf_ge: "- 1 \<le> indexOf xs x"
  by (induction xs) (auto simp: Let_def)

lemma indexOf_mem: "(indexOf xs x > - 1) = (x \<in> set xs)"
proof (induction xs)
  case Nil
  then show ?case by simp
next
  case (Cons y ys)
  have "- 1 \<le> indexOf ys x" by (rule indexOf_ge)
  with Cons show ?case
    by (auto simp: Let_def)
qed

lemma splice_indexOf: "x \<in> set xs \<Longrightarrow> splice_js xs (nat (indexOf xs x)) (Suc 0) = remove1 x xs"
proof (induction xs)
  case Nil
  then show ?case by simp
next
  case (Cons y ys)
  show ?case
  proof (cases "y = x")
    case True
    then show ?thesis by (simp add: splice_js_def)
  next
    case False
    with Cons.prems have m: "x \<in> set ys" by simp
    then have "indexOf ys x > - 1" by (simp add: indexOf_mem)
    then have n: "nat (indexOf ys x + 1) = Suc (nat (indexOf ys x))" and k: "indexOf ys x \<noteq> - 1"
      by simp_all
    from Cons.IH [OF m] have "take (nat (indexOf ys x)) ys @ drop (Suc (nat (indexOf ys x))) ys = remove1 x ys"
      by (simp add: splice_js_def)
    with False k n show ?thesis
      by (simp add: splice_js_def Let_def)
  qed
qed

lemma find_map_replace:
  "find P xs = Some b \<Longrightarrow> P b' \<Longrightarrow> find P (map (\<lambda>x. if P x then b' else x) xs) = Some b'"
  by (induction xs) (auto split: if_splits)

lemma Blog_findById_id: "Blog_findById i s = Some b \<Longrightarrow> blog_id b = i"
  unfolding Blog_findById_def by (rule find_Some_pred)

lemma blog_valid_likes: "blog_valid (b\<lparr>likes := l\<rparr>) = blog_valid b"
  by (simp add: blog_valid_def)

lemma toggle_like_invalid:
  assumes "Blog_findById i s = Some b" and "\<not> blog_valid b"
  shows "toggleLike u i s = (json 500 (ServerError ValidationFailed), s)"
  using assms by (simp add: toggleLike_def Let_def Blog_save_def blog_valid_likes)

lemma toggle_like_valid:
  assumes "Blog_findById i s = Some b" and "blog_valid b"
  shows "toggleLike u i s =
    (json 200 (LikesBody (toggled (likes b) (user_id u)) (length (toggled (likes b) (user_id u)))),
     s\<lparr>blogs := map (\<lambda>x. if blog_id x = i then b\<lparr>likes := toggled (likes b) (user_id u)\<rparr> else x) (blogs s),
       journal := journal s @ [BlogSave (b\<lparr>likes := toggled (likes b) (user_id u)\<rparr>)]\<rparr>)"
proof -
  have id: "blog_id b = i"
    using assms(1) by (rule Blog_findById_id)
  show ?thesis
  proof (cases "user_id u \<in> set (likes b)")
    case True
    then have "indexOf (likes b) (user_id u) > - 1"
      by (simp add: indexOf_mem)
    with True assms id show ?thesis
      by (simp add: toggleLike_def Let_def Blog_save_def blog_valid_likes splice_indexOf
          toggled_def likesCount_def)
  next
    case False
    then have "\<not> indexOf (likes b) (user_id u) > - 1"
      by (simp add: indexOf_mem)
    with False assms id show ?thesis
      by (simp add: toggleLike_def Let_def Blog_save_def blog_valid_likes
          toggled_def likesCount_def)
  qed
qed




lemma toggled_distinct: "distinct l \<Longrightarrow> distinct (toggled l x)"
  by (simp add: toggled_def)

lemma toggle_like_keeps_distinct:
  assumes "list_all (\<lambda>b. distinct (likes b)) (blogs s)"
  shows "list_all (\<lambda>b. distinct (likes b)) (blogs (snd (toggleLike u i s)))"
proof (cases "Blog_findById i s")
  case None
  with assms show ?thesis
    by (simp add: toggleLike_def)
next
  case (Some b)
  have "b \<in> set (blogs s)"
    using Some unfolding Blog_findById_def by (rule find_Some_mem)
  with assms have d: "distinct (likes b)"
    by (simp add: list_all_iff)
  show ?thesis
  proof (cases "blog_valid b")
    case True
    from d have "distinct (toggled (likes b) (user_id u))"
      by (rule toggled_distinct)
    with assms show ?thesis
      by (auto simp: toggle_like_valid [OF Some True] list_all_iff)
  next
    case False
    with assms show ?thesis
      by (simp add: toggle_like_invalid [OF Some False])
  qed
qed




section \<open>Adding a comment\<close>

lemma trim_blank: "list_all is_space c \<Longrightarrow> trim c = []"
proof -
  assume "list_all is_space c"
  then have "dropWhile is_space c = []"
    by (simp add: dropWhile_eq_Nil_conv list_all_iff)
  then show ?thesis
    by (simp only: trim_def rev.simps dropWhile.simps)
qed

lemma add_comment_absent:
  "addComment u i n None s = (json 400 (Message ''Comment content is required''), s)"
  by (simp add: addComment_def)

lemma add_comment_empty:
  "addComment u i n (Some []) s = (json 400 (Message ''Comment content is required''), s)"
  by (simp add: addComment_def)

lemma add_comment_blank:
  assumes "Blog_findById i s = Some b" and "c \<noteq> []" and "list_all is_space c"
  shows "addComment u i n (Some c) s = (json 500 (ServerError ValidationFailed), s)"
proof -
  have "trim c = []"
    using assms(3) by (rule trim_blank)
  with assms(1,2) show ?thesis
    by (simp add: addComment_def Let_def Blog_save_def blog_valid_def comment_valid_def)
qed

text \<open>
  C5 at a whitespace-only content: the guard \<^verbatim>\<open>!content\<close> lets three spaces through, the
  schema trims them to the empty string, the save is rejected by the \<^verbatim>\<open>required\<close>
  validator and the handler's catch answers 500, not 400. The store is unchanged.
\<close>

theorem add_comment_whitespace_500:
  "Blog_findById 10 demo = Some alice_blog
   \<and> code_units ''   '' = [0x20, 0x20, 0x20]
   \<and> addComment bob 10 30 (Some (code_units ''   '')) demo
       = (json 500 (ServerError ValidationFailed), demo)
   \<and> status (fst (addComment bob 10 30 (Some (code_units ''   '')) demo)) \<noteq> 400"
proof -
  have f: "Blog_findById 10 demo = Some alice_blog"
    by (simp add: Blog_findById_def demo_defs)
  have c: "code_units ''   '' = [0x20, 0x20, 0x20]"
    by (simp add: code_units_def)
  have n: "code_units ''   '' \<noteq> []"
    by (simp add: code_units_def)
  have t: "trim (code_units ''   '') = []"
    unfolding c by (simp add: trim_def is_space_def)
  have r: "addComment bob 10 30 (Some (code_units ''   '')) demo
      = (json 500 (ServerError ValidationFailed), demo)"
    using f n t by (simp add: addComment_def Let_def Blog_save_def blog_valid_def comment_valid_def)
  have s: "status (fst (addComment bob 10 30 (Some (code_units ''   '')) demo)) \<noteq> 400"
    by (simp add: r json_def)
  show ?thesis
    by (intro conjI f c r s)
qed

text \<open>
  The other white space of \<^verbatim>\<open>String.prototype.trim\<close> goes the same way, a lone no-break
  space or a lone U+FEFF for instance, and a content with something else in it is stored
  trimmed.
\<close>

lemma add_comment_nbsp:
  assumes "Blog_findById i s = Some b"
  shows "addComment u i n (Some [0x00A0]) s = (json 500 (ServerError ValidationFailed), s)"
    and "addComment u i n (Some [0xFEFF]) s = (json 500 (ServerError ValidationFailed), s)"
    and "addComment u i n (Some [0x2003, 0x3000]) s = (json 500 (ServerError ValidationFailed), s)"
  by (rule add_comment_blank [OF assms]; simp add: is_space_def)+

lemma trim_keeps_inner: "trim [0x20, 0x68, 0x20, 0x69, 0x00A0] = [0x68, 0x20, 0x69]"
  by (simp add: trim_def is_space_def)

section \<open>Editing a user\<close>

lemma find_list_ex: "find P xs = Some x \<Longrightarrow> list_ex P xs"
  by (induction xs) (auto split: if_splits)

lemma assign_role_invalid: "r \<noteq> ''user'' \<Longrightarrow> r \<noteq> ''admin'' \<Longrightarrow> assign_role (Some r) old = old"
  by simp

lemma assign_role_cases:
  "assign_role ro old \<noteq> old \<Longrightarrow> ro = Some ''user'' \<or> ro = Some ''admin''"
  by (cases ro) (auto split: if_splits)

lemma edit_user_role_after:
  assumes "User_findById i s = Some u"
  shows "map_option role (User_findById i (snd (editUser i n e ro s)))
           = Some (if list_ex (\<lambda>v. user_id v \<noteq> i \<and> email v = assign_if e (email u)) (users s)
                   then role u else assign_role ro (role u))"
proof -
  have id: "user_id u = i"
    using assms by (rule User_findById_id)
  have ex: "list_ex (\<lambda>v. user_id v = i) (users s)"
    using assms unfolding User_findById_def by (rule find_list_ex)
  let ?u' = "u\<lparr>name := assign_if n (name u), email := assign_if e (email u),
               role := assign_role ro (role u)\<rparr>"
  have f: "find (\<lambda>v. user_id v = i) (map (\<lambda>v. if user_id v = i then ?u' else v) (users s)) = Some ?u'"
    using assms id unfolding User_findById_def
    by (intro find_map_replace [where P = "\<lambda>v. user_id v = i"]) simp_all
  show ?thesis
    using assms id ex f
    by (simp add: editUser_def Let_def User_save_def User_findById_def)
qed

text \<open>
  C8: for an existing target, a supplied role other than "user" and "admin" is ignored:
  the request runs exactly as the same request without a role, the stored role is kept,
  and where the save is accepted (no other account holds the resulting email) the answer
  is 200 "User updated successfully" with the old role. A supplied "user" or "admin" is
  stored, and the stored role changes only for one of these two values.
\<close>

theorem edit_user_role_guard:
  assumes "User_findById i s = Some u"
  shows "(r \<noteq> ''user'' \<and> r \<noteq> ''admin'' \<longrightarrow>
            editUser i n e (Some r) s = editUser i n e None s
          \<and> map_option role (User_findById i (snd (editUser i n e (Some r) s))) = Some (role u))
    \<and> (r \<noteq> ''user'' \<and> r \<noteq> ''admin''
        \<and> \<not> list_ex (\<lambda>v. user_id v \<noteq> i \<and> email v = assign_if e (email u)) (users s) \<longrightarrow>
          fst (editUser i n e (Some r) s) =
            json 200 (UserBody ''User updated successfully''
              (UserView i (assign_if n (name u)) (assign_if e (email u)) (role u))))
    \<and> ((r = ''user'' \<or> r = ''admin'')
        \<and> \<not> list_ex (\<lambda>v. user_id v \<noteq> i \<and> email v = assign_if e (email u)) (users s) \<longrightarrow>
          map_option role (User_findById i (snd (editUser i n e (Some r) s))) = Some r)
    \<and> (map_option role (User_findById i (snd (editUser i n e ro s))) \<noteq> Some (role u) \<longrightarrow>
          ro = Some ''user'' \<or> ro = Some ''admin'')"
proof -
  have id: "user_id u = i"
    using assms by (rule User_findById_id)
  have ex: "list_ex (\<lambda>v. user_id v = i) (users s)"
    using assms unfolding User_findById_def by (rule find_list_ex)
  have same: "editUser i n e (Some r) s = editUser i n e None s"
    if "r \<noteq> ''user''" "r \<noteq> ''admin''"
    using assms that by (simp add: editUser_def)
  have kept: "map_option role (User_findById i (snd (editUser i n e (Some r) s))) = Some (role u)"
    if "r \<noteq> ''user''" "r \<noteq> ''admin''"
  proof -
    have "assign_role (Some r) (role u) = role u"
      using that by simp
    then show ?thesis
      by (simp add: edit_user_role_after [OF assms])
  qed
  have ok: "fst (editUser i n e (Some r) s) =
            json 200 (UserBody ''User updated successfully''
              (UserView i (assign_if n (name u)) (assign_if e (email u)) (role u)))"
    if "r \<noteq> ''user''" "r \<noteq> ''admin''"
      "\<not> list_ex (\<lambda>v. user_id v \<noteq> i \<and> email v = assign_if e (email u)) (users s)"
    using assms id ex that by (simp add: editUser_def Let_def User_save_def view_def)
  have set: "map_option role (User_findById i (snd (editUser i n e (Some r) s))) = Some r"
    if "r = ''user'' \<or> r = ''admin''"
      "\<not> list_ex (\<lambda>v. user_id v \<noteq> i \<and> email v = assign_if e (email u)) (users s)"
  proof -
    have "assign_role (Some r) (role u) = r"
      using that(1) by auto
    with that(2) show ?thesis
      by (simp add: edit_user_role_after [OF assms])
  qed
  have only: "ro = Some ''user'' \<or> ro = Some ''admin''"
    if "map_option role (User_findById i (snd (editUser i n e ro s))) \<noteq> Some (role u)"
  proof -
    from that have "assign_role ro (role u) \<noteq> role u"
      unfolding edit_user_role_after [OF assms] by (simp split: if_splits)
    then show ?thesis by (rule assign_role_cases)
  qed
  show ?thesis
    using same kept ok set only by blast
qed

theorem edit_user_role_guard_witness:
  "User_findById 1 demo = Some alice \<and> role alice = ''user''
   \<and> ''superuser'' \<noteq> ''user'' \<and> ''superuser'' \<noteq> ''admin''
   \<and> \<not> list_ex (\<lambda>v. user_id v \<noteq> 1 \<and> email v = assign_if None (email alice)) (users demo)
   \<and> editUser 1 None None (Some ''superuser'') demo = editUser 1 None None None demo
   \<and> map_option role (User_findById 1 (snd (editUser 1 None None (Some ''superuser'') demo))) = Some ''user''
   \<and> fst (editUser 1 None None (Some ''superuser'') demo)
       = json 200 (UserBody ''User updated successfully'' (UserView 1 ''Alice'' ''a@x.com'' ''user''))
   \<and> map_option role (User_findById 1 (snd (editUser 1 None None (Some ''admin'') demo))) = Some ''admin''"
proof -
  have f: "User_findById 1 demo = Some alice"
    by (simp add: User_findById_def demo_defs)
  have a: "role alice = ''user''" "name alice = ''Alice''" "email alice = ''a@x.com''"
    by (simp_all add: alice_def)
  have n1: "''superuser'' \<noteq> ''user''" and n2: "''superuser'' \<noteq> ''admin''"
    by simp_all
  have c: "\<not> list_ex (\<lambda>v. user_id v \<noteq> 1 \<and> email v = assign_if None (email alice)) (users demo)"
    by (simp add: demo_defs)
  note S = edit_user_role_guard [OF f, where r = "''superuser''" and n = None and e = None]
  have s1: "editUser 1 None None (Some ''superuser'') demo = editUser 1 None None None demo"
    using S [THEN conjunct1, rule_format, OF conjI [OF n1 n2], THEN conjunct1] .
  have s2: "map_option role (User_findById 1 (snd (editUser 1 None None (Some ''superuser'') demo))) = Some ''user''"
    using S [THEN conjunct1, rule_format, OF conjI [OF n1 n2], THEN conjunct2] by (simp only: a)
  have s3: "fst (editUser 1 None None (Some ''superuser'') demo)
       = json 200 (UserBody ''User updated successfully'' (UserView 1 ''Alice'' ''a@x.com'' ''user''))"
    using S [THEN conjunct2, THEN conjunct1, rule_format, OF conjI [OF n1 conjI [OF n2 c]]]
    by (simp only: a assign_if.simps)
  note T = edit_user_role_guard [OF f, where r = "''admin''" and n = None and e = None]
  have t1: "map_option role (User_findById 1 (snd (editUser 1 None None (Some ''admin'') demo))) = Some ''admin''"
    using T [THEN conjunct2, THEN conjunct2, THEN conjunct1, rule_format, OF conjI [OF disjI2 [OF refl] c]] .
  show ?thesis
    by (intro conjI f a(1) n1 n2 c s1 s2 s3 t1)
qed

section \<open>Admin login\<close>

lemma find_None_filter: "find P xs = None \<Longrightarrow> filter P xs = []"
  by (simp add: find_None_iff filter_empty_conv)

lemma find_None_list_ex: "find P xs = None \<Longrightarrow> \<not> list_ex (\<lambda>v. Q v \<and> P v) xs"
  by (auto simp: find_None_iff list_ex_iff)

lemma distinct_map_eq:
  "distinct (map g xs) \<Longrightarrow> x \<in> set xs \<Longrightarrow> y \<in> set xs \<Longrightarrow> g x = g y \<Longrightarrow> x = y"
  by (auto simp: distinct_map dest: inj_onD)

lemma filter_unique:
  "distinct (map g xs) \<Longrightarrow> find (\<lambda>v. g v = k) xs = Some u \<Longrightarrow> filter (\<lambda>v. g v = k) xs = [u]"
proof (induction xs)
  case Nil
  then show ?case by simp
next
  case (Cons x xs)
  show ?case
  proof (cases "g x = k")
    case True
    with Cons.prems have "u = x" and "\<forall>v\<in>set xs. g v \<noteq> k"
      by (auto simp: image_iff)
    with True show ?thesis
      by (simp add: filter_empty_conv)
  next
    case False
    with Cons show ?thesis by simp
  qed
qed

lemma find_snoc_None: "find P xs = None \<Longrightarrow> find P (xs @ [a]) = (if P a then Some a else None)"
  by (induction xs) (auto split: if_splits)

lemma find_map_keep:
  "(\<And>x. x \<in> set xs \<Longrightarrow> P (f x) = P x) \<Longrightarrow> find P (map f xs) = map_option f (find P xs)"
  by (induction xs) auto

lemma filter_map_keep:
  "(\<And>x. x \<in> set xs \<Longrightarrow> P (f x) = P x) \<Longrightarrow> filter P (map f xs) = map f (filter P xs)"
  by (induction xs) auto

lemma admin_login_found_admin:
  assumes "User_findOne_email (ADMIN_EMAIL e) s = Some a" and "role a = ''admin''"
  shows "adminLogin e h n (ADMIN_EMAIL e) (ADMIN_PASSWORD e) s = (admin_ok a, s)"
  using assms by (simp add: adminLogin_def admin_ok_def)

lemma admin_login_create:
  assumes "User_findOne_email (ADMIN_EMAIL e) s = None"
    and "n \<notin> set (map user_id (users s))"
  shows "adminLogin e h n (ADMIN_EMAIL e) (ADMIN_PASSWORD e) s =
      (admin_ok \<lparr>user_id = n, name = ''Admin'', email = ADMIN_EMAIL e,
                 password = h (ADMIN_PASSWORD e), role = ''admin''\<rparr>,
       s\<lparr>users := users s @ [\<lparr>user_id = n, name = ''Admin'', email = ADMIN_EMAIL e,
                               password = h (ADMIN_PASSWORD e), role = ''admin''\<rparr>],
         journal := journal s @ [UserSave \<lparr>user_id = n, name = ''Admin'', email = ADMIN_EMAIL e,
                               password = h (ADMIN_PASSWORD e), role = ''admin''\<rparr>]\<rparr>)"
proof -
  have 1: "\<not> list_ex (\<lambda>v. user_id v \<noteq> n \<and> email v = ADMIN_EMAIL e) (users s)"
    using assms(1) unfolding User_findOne_email_def by (rule find_None_list_ex)
  have 2: "\<not> list_ex (\<lambda>v. user_id v = n) (users s)"
    using assms(2) by (auto simp: list_ex_iff)
  show ?thesis
    using assms(1) 1 2 by (simp add: adminLogin_def Let_def User_save_def admin_ok_def)
qed

lemma admin_login_promote:
  assumes "distinct (map email (users s))"
    and "User_findOne_email (ADMIN_EMAIL e) s = Some u" and "role u \<noteq> ''admin''"
  shows "adminLogin e h n (ADMIN_EMAIL e) (ADMIN_PASSWORD e) s =
      (admin_ok (u\<lparr>role := ''admin''\<rparr>),
       s\<lparr>users := map (\<lambda>v. if user_id v = user_id u then u\<lparr>role := ''admin''\<rparr> else v) (users s),
         journal := journal s @ [UserSave (u\<lparr>role := ''admin''\<rparr>)]\<rparr>)"
proof -
  have m: "u \<in> set (users s)" and em: "email u = ADMIN_EMAIL e"
    using assms(2) unfolding User_findOne_email_def
    by (auto dest: find_Some_mem find_Some_pred)
  have 1: "\<not> list_ex (\<lambda>v. user_id v \<noteq> user_id u \<and> email v = ADMIN_EMAIL e) (users s)"
    using distinct_map_eq [OF assms(1) _ m] em by (auto simp: list_ex_iff)
  have 2: "list_ex (\<lambda>v. user_id v = user_id u) (users s)"
    using m by (auto simp: list_ex_iff)
  show ?thesis
    using assms(2,3) 1 2 em by (simp add: adminLogin_def Let_def User_save_def admin_ok_def)
qed

text \<open>
  C6: an admin login with the configured credentials, on a store where ids and emails
  are unique and the generated id is fresh, succeeds and leaves exactly one account with
  the admin email, whose role is "admin". With no such account before, exactly one user
  is appended, named "Admin" with role "admin"; an existing admin account leaves the
  store as it was; an existing other account is promoted and nothing else changes. A
  further login on the resulting store gives the same answer and changes nothing, so no
  duplicate arises.
\<close>

theorem admin_login_bootstrap:
  assumes "distinct (map user_id (users s))" and "distinct (map email (users s))"
    and "n \<notin> set (map user_id (users s))"
    and "adminLogin e h n (ADMIN_EMAIL e) (ADMIN_PASSWORD e) s = (r, s')"
  shows "status r = 200
    \<and> map role (filter (\<lambda>v. email v = ADMIN_EMAIL e) (users s')) = [''admin'']
    \<and> (User_findOne_email (ADMIN_EMAIL e) s = None \<longrightarrow>
         users s' = users s @ [\<lparr>user_id = n, name = ''Admin'', email = ADMIN_EMAIL e,
                                password = h (ADMIN_PASSWORD e), role = ''admin''\<rparr>])
    \<and> (User_findOne_email (ADMIN_EMAIL e) s = Some u \<and> role u = ''admin'' \<longrightarrow> s' = s)
    \<and> (User_findOne_email (ADMIN_EMAIL e) s = Some u \<and> role u \<noteq> ''admin'' \<longrightarrow>
         users s' = map (\<lambda>v. if user_id v = user_id u then u\<lparr>role := ''admin''\<rparr> else v) (users s))
    \<and> adminLogin e h m (ADMIN_EMAIL e) (ADMIN_PASSWORD e) s' = (r, s')"
proof (cases "User_findOne_email (ADMIN_EMAIL e) s")
  case None
  let ?a = "\<lparr>user_id = n, name = ''Admin'', email = ADMIN_EMAIL e,
             password = h (ADMIN_PASSWORD e), role = ''admin''\<rparr>"
  have run: "r = admin_ok ?a"
      "s' = s\<lparr>users := users s @ [?a], journal := journal s @ [UserSave ?a]\<rparr>"
    using admin_login_create [OF None assms(3), of h] assms(4) by simp_all
  have none: "filter (\<lambda>v. email v = ADMIN_EMAIL e) (users s) = []"
    using None unfolding User_findOne_email_def by (rule find_None_filter)
  have f: "User_findOne_email (ADMIN_EMAIL e) s' = Some ?a"
    using None by (simp add: run User_findOne_email_def find_snoc_None)
  have again: "adminLogin e h m (ADMIN_EMAIL e) (ADMIN_PASSWORD e) s' = (r, s')"
    using admin_login_found_admin [OF f] by (simp add: run(1))
  show ?thesis
    using None none again by (simp add: run admin_ok_def)
next
  case (Some a)
  have m: "a \<in> set (users s)" and em: "email a = ADMIN_EMAIL e"
    using Some unfolding User_findOne_email_def
    by (auto dest: find_Some_mem find_Some_pred)
  have one: "filter (\<lambda>v. email v = ADMIN_EMAIL e) (users s) = [a]"
    using assms(2) Some unfolding User_findOne_email_def by (rule filter_unique)
  show ?thesis
  proof (cases "role a = ''admin''")
    case True
    have run: "r = admin_ok a" "s' = s"
      using admin_login_found_admin [OF Some True, of h n] assms(4) by simp_all
    have again: "adminLogin e h m (ADMIN_EMAIL e) (ADMIN_PASSWORD e) s' = (r, s')"
      using admin_login_found_admin [OF Some True] by (simp add: run)
    show ?thesis
      using Some True one again by (auto simp: run admin_ok_def)
  next
    case False
    let ?a = "a\<lparr>role := ''admin''\<rparr>"
    let ?f = "\<lambda>v. if user_id v = user_id a then ?a else v"
    have run: "r = admin_ok ?a"
        "s' = s\<lparr>users := map ?f (users s), journal := journal s @ [UserSave ?a]\<rparr>"
      using admin_login_promote [OF assms(2) Some False, of h n] assms(4) by simp_all
    have keep: "(email (?f x) = ADMIN_EMAIL e) = (email x = ADMIN_EMAIL e)" if "x \<in> set (users s)" for x
      using distinct_map_eq [OF assms(1) that m] em by auto
    have fa: "?f a = ?a"
      by simp
    have f: "User_findOne_email (ADMIN_EMAIL e) s' = Some ?a"
      using find_map_keep [where P = "\<lambda>v. email v = ADMIN_EMAIL e" and f = ?f and xs = "users s", OF keep]
        Some
      by (simp add: run User_findOne_email_def)
    have one': "filter (\<lambda>v. email v = ADMIN_EMAIL e) (users s') = [?a]"
      using filter_map_keep [where P = "\<lambda>v. email v = ADMIN_EMAIL e" and f = ?f and xs = "users s", OF keep]
        one
      by (simp add: run)
    have again: "adminLogin e h m (ADMIN_EMAIL e) (ADMIN_PASSWORD e) s' = (r, s')"
      using admin_login_found_admin [OF f] by (simp add: run(1))
    show ?thesis
      using Some False one' again by (auto simp: run(1) admin_ok_def) (simp add: run(2))
  qed
qed

theorem admin_login_bootstrap_witness:
  "distinct (map user_id (users demo)) \<and> distinct (map email (users demo))
   \<and> 4 \<notin> set (map user_id (users demo))
   \<and> User_findOne_email (ADMIN_EMAIL boss_env) demo = None
   \<and> users (snd (adminLogin boss_env demo_hash 4 (ADMIN_EMAIL boss_env) (ADMIN_PASSWORD boss_env) demo))
       = [alice, bob, root,
          \<lparr>user_id = 4, name = ''Admin'', email = ''boss@x.com'', password = ''hsecret'', role = ''admin''\<rparr>]
   \<and> adminLogin boss_env demo_hash 5 (ADMIN_EMAIL boss_env) (ADMIN_PASSWORD boss_env)
        (snd (adminLogin boss_env demo_hash 4 (ADMIN_EMAIL boss_env) (ADMIN_PASSWORD boss_env) demo))
       = adminLogin boss_env demo_hash 4 (ADMIN_EMAIL boss_env) (ADMIN_PASSWORD boss_env) demo
   \<and> User_findOne_email (ADMIN_EMAIL root_env) demo = Some root \<and> role root = ''admin''
   \<and> snd (adminLogin root_env demo_hash 4 (ADMIN_EMAIL root_env) (ADMIN_PASSWORD root_env) demo) = demo
   \<and> User_findOne_email (ADMIN_EMAIL alice_env) demo = Some alice \<and> role alice \<noteq> ''admin''
   \<and> users (snd (adminLogin alice_env demo_hash 4 (ADMIN_EMAIL alice_env) (ADMIN_PASSWORD alice_env) demo))
       = [alice\<lparr>role := ''admin''\<rparr>, bob, root]
   \<and> map role (filter (\<lambda>v. email v = ADMIN_EMAIL alice_env)
        (users (snd (adminLogin alice_env demo_hash 4 (ADMIN_EMAIL alice_env) (ADMIN_PASSWORD alice_env) demo))))
       = [''admin'']"
proof -
  have d1: "distinct (map user_id (users demo))"
    by (simp add: demo_defs)
  have d2: "distinct (map email (users demo))"
    by (simp add: demo_defs)
  have fr: "4 \<notin> set (map user_id (users demo))"
    by (simp add: demo_defs)
  have fb: "User_findOne_email (ADMIN_EMAIL boss_env) demo = None"
    by (simp add: User_findOne_email_def demo_defs boss_env_def)
  have fo: "User_findOne_email (ADMIN_EMAIL root_env) demo = Some root" and ro: "role root = ''admin''"
    by (simp_all add: User_findOne_email_def demo_defs root_env_def)
  have fa: "User_findOne_email (ADMIN_EMAIL alice_env) demo = Some alice" and ra: "role alice \<noteq> ''admin''"
    by (simp_all add: User_findOne_email_def demo_defs alice_env_def)
  note B = admin_login_bootstrap [OF d1 d2 fr surjective_pairing,
      where e = boss_env and h = demo_hash and m = 5]
  have b1: "users (snd (adminLogin boss_env demo_hash 4 (ADMIN_EMAIL boss_env) (ADMIN_PASSWORD boss_env) demo))
       = [alice, bob, root,
          \<lparr>user_id = 4, name = ''Admin'', email = ''boss@x.com'', password = ''hsecret'', role = ''admin''\<rparr>]"
    using B [THEN conjunct2, THEN conjunct2, THEN conjunct1, rule_format, OF fb]
    by (simp add: demo_def boss_env_def demo_hash_def)
  have b2: "adminLogin boss_env demo_hash 5 (ADMIN_EMAIL boss_env) (ADMIN_PASSWORD boss_env)
        (snd (adminLogin boss_env demo_hash 4 (ADMIN_EMAIL boss_env) (ADMIN_PASSWORD boss_env) demo))
       = adminLogin boss_env demo_hash 4 (ADMIN_EMAIL boss_env) (ADMIN_PASSWORD boss_env) demo"
    using B [THEN conjunct2, THEN conjunct2, THEN conjunct2, THEN conjunct2, THEN conjunct2]
    by (simp only: prod.collapse)
  note R = admin_login_bootstrap [OF d1 d2 fr surjective_pairing,
      where e = root_env and h = demo_hash and u = root]
  have r1: "snd (adminLogin root_env demo_hash 4 (ADMIN_EMAIL root_env) (ADMIN_PASSWORD root_env) demo) = demo"
    using R [THEN conjunct2, THEN conjunct2, THEN conjunct2, THEN conjunct1, rule_format, OF conjI [OF fo ro]] .
  note A = admin_login_bootstrap [OF d1 d2 fr surjective_pairing,
      where e = alice_env and h = demo_hash and u = alice]
  have a1: "users (snd (adminLogin alice_env demo_hash 4 (ADMIN_EMAIL alice_env) (ADMIN_PASSWORD alice_env) demo))
       = [alice\<lparr>role := ''admin''\<rparr>, bob, root]"
    using A [THEN conjunct2, THEN conjunct2, THEN conjunct2, THEN conjunct2, THEN conjunct1,
        rule_format, OF conjI [OF fa ra]]
    by (simp add: demo_defs)
  have a2: "map role (filter (\<lambda>v. email v = ADMIN_EMAIL alice_env)
        (users (snd (adminLogin alice_env demo_hash 4 (ADMIN_EMAIL alice_env) (ADMIN_PASSWORD alice_env) demo))))
       = [''admin'']"
    using A [THEN conjunct2, THEN conjunct1] .
  show ?thesis
    by (intro conjI d1 d2 fr fb b1 b2 fo ro r1 fa ra a1 a2)
qed

end
